theory Spec2Isabelle
  imports Main
begin

section \<open>Hope Bridge: the donations and projects tables and the funding trigger\<close>

text \<open>
  The embedding follows the SQL migration
  \<^verbatim>\<open>supabase/migrations/20251204115400_create_hope_bridge_schema.sql\<close> and the donation
  modal's \<^verbatim>\<open>handleDonate\<close>. A column declared \<^verbatim>\<open>NOT NULL\<close> (or a primary key) has a plain
  type; a nullable column has an \<open>option\<close> type, \<open>None\<close> being SQL's NULL. A
  \<^verbatim>\<open>decimal(12, 2)\<close> value is the integer number of its hundredths, so \<^verbatim>\<open>60.00\<close> is
  \<open>6000\<close>. A table is the list of its rows.
\<close>

subsection \<open>Column types\<close>

type_synonym uuid = nat
type_synonym timestamptz = int
type_synonym numeric = int

text \<open>\<^verbatim>\<open>CREATE TYPE project_status AS ENUM (...)\<close> and \<^verbatim>\<open>CREATE TYPE donation_status AS ENUM (...)\<close>;
  the prefixes keep the two \<^verbatim>\<open>completed\<close> labels apart.\<close>

datatype project_status =
  ps_draft | ps_pending_review | ps_active | ps_fully_funded | ps_completed | ps_cancelled

datatype donation_status = ds_pending | ds_completed | ds_refunded

text \<open>The \<^verbatim>\<open>projects\<close> table (migration lines 132-148).\<close>

record project =
  p_id :: uuid
  creator_id :: uuid
  title :: string
  description :: string
  goal_amount :: numeric
  raised_amount :: "numeric option"
  p_status :: "project_status option"
  category_id :: "uuid option"
  location :: string
  start_date :: "timestamptz option"
  end_date :: "timestamptz option"
  image_url :: "string option"
  p_created_at :: "timestamptz option"
  updated_at :: "timestamptz option"

text \<open>The \<^verbatim>\<open>donations\<close> table (migration lines 151-161).\<close>

record donation =
  d_id :: uuid
  donor_id :: "uuid option"
  project_id :: uuid
  amount :: numeric
  transaction_id :: "string option"
  d_status :: "donation_status option"
  message :: "string option"
  is_anonymous :: "bool option"
  d_created_at :: "timestamptz option"

text \<open>The database: of \<^verbatim>\<open>profiles\<close> only the primary keys matter here (they are the
  target of \<^verbatim>\<open>donations.donor_id\<close>).\<close>

record db =
  profiles :: "uuid list"
  projects :: "project list"
  donations :: "donation list"

datatype error =
  numeric_value_out_of_range
  | check_violation
  | unique_violation
  | foreign_key_violation
  | insufficient_privilege

subsection \<open>SQL's three-valued expressions\<close>

definition sql_eq :: "'a option \<Rightarrow> 'a option \<Rightarrow> bool option" where
  "sql_eq a b = (case a of None \<Rightarrow> None
                 | Some x \<Rightarrow> (case b of None \<Rightarrow> None | Some y \<Rightarrow> Some (x = y)))"

definition sql_neq :: "'a option \<Rightarrow> 'a option \<Rightarrow> bool option" where
  "sql_neq a b = (case a of None \<Rightarrow> None
                  | Some x \<Rightarrow> (case b of None \<Rightarrow> None | Some y \<Rightarrow> Some (x \<noteq> y)))"

definition sql_ge :: "numeric option \<Rightarrow> numeric option \<Rightarrow> bool option" where
  "sql_ge a b = (case a of None \<Rightarrow> None
                 | Some x \<Rightarrow> (case b of None \<Rightarrow> None | Some y \<Rightarrow> Some (x \<ge> y)))"

definition sql_gt :: "int option \<Rightarrow> int option \<Rightarrow> bool option" where
  "sql_gt a b = (case a of None \<Rightarrow> None
                 | Some x \<Rightarrow> (case b of None \<Rightarrow> None | Some y \<Rightarrow> Some (x > y)))"

definition sql_add :: "numeric option \<Rightarrow> numeric option \<Rightarrow> numeric option" where
  "sql_add a b = (case a of None \<Rightarrow> None
                  | Some x \<Rightarrow> (case b of None \<Rightarrow> None | Some y \<Rightarrow> Some (x + y)))"

fun sql_and :: "bool option \<Rightarrow> bool option \<Rightarrow> bool option" where
  "sql_and (Some False) _ = Some False"
| "sql_and _ (Some False) = Some False"
| "sql_and (Some True) (Some True) = Some True"
| "sql_and _ _ = None"

text \<open>\<^verbatim>\<open>IF c THEN\<close> and \<^verbatim>\<open>CASE WHEN c THEN\<close> take the branch only when \<open>c\<close> is true.\<close>

definition sql_true :: "bool option \<Rightarrow> bool" where
  "sql_true c = (c = Some True)"

text \<open>A \<^verbatim>\<open>CHECK\<close> constraint rejects a row only when its expression is false.\<close>

definition sql_check :: "bool option \<Rightarrow> bool" where
  "sql_check c = (c \<noteq> Some False)"

text \<open>\<^verbatim>\<open>decimal(12, 2)\<close>: at most ten digits before the point, so fewer than
  \<open>10 ^ 12\<close> hundredths in absolute value; storing anything larger raises
  "numeric field overflow".\<close>

definition fits_decimal_12_2 :: "numeric option \<Rightarrow> bool" where
  "fits_decimal_12_2 v = (case v of None \<Rightarrow> True | Some x \<Rightarrow> \<bar>x\<bar> < 10 ^ 12)"

subsection \<open>Table constraints\<close>

text \<open>\<^verbatim>\<open>CHECK (goal_amount > 0)\<close>, \<^verbatim>\<open>CHECK (raised_amount >= 0)\<close> and
  \<^verbatim>\<open>valid_date_range\<close> of \<^verbatim>\<open>projects\<close>.\<close>

definition projects_check :: "project \<Rightarrow> bool" where
  "projects_check p =
     (sql_check (sql_gt (Some (goal_amount p)) (Some 0))
      \<and> sql_check (sql_ge (raised_amount p) (Some 0))
      \<and> (end_date p = None \<or> start_date p = None
         \<or> sql_check (sql_gt (end_date p) (start_date p))))"

text \<open>\<^verbatim>\<open>CHECK (amount > 0)\<close> of \<^verbatim>\<open>donations\<close>.\<close>

definition donations_check :: "donation \<Rightarrow> bool" where
  "donations_check d = sql_check (sql_gt (Some (amount d)) (Some 0))"

text \<open>\<^verbatim>\<open>id uuid PRIMARY KEY\<close> and \<^verbatim>\<open>transaction_id text UNIQUE\<close>: in the table \<open>ds\<close> that
  already holds the written row \<open>d\<close>, no second row has its key, and no second row has its
  transaction id unless that is NULL.\<close>

definition donations_unique :: "donation list \<Rightarrow> donation \<Rightarrow> bool" where
  "donations_unique ds d =
     (length (filter (\<lambda>x. d_id x = d_id d) ds) \<le> 1
      \<and> (transaction_id d = None
         \<or> length (filter (\<lambda>x. transaction_id x = transaction_id d) ds) \<le> 1))"

text \<open>\<^verbatim>\<open>donor_id uuid REFERENCES profiles(id)\<close> and
  \<^verbatim>\<open>project_id uuid NOT NULL REFERENCES projects(id)\<close>.\<close>

definition donations_fkey :: "db \<Rightarrow> donation \<Rightarrow> bool" where
  "donations_fkey s d =
     ((case donor_id d of None \<Rightarrow> True | Some u \<Rightarrow> u \<in> set (profiles s))
      \<and> project_id d \<in> set (map p_id (projects s)))"

subsection \<open>The trigger function and its UPDATE of projects\<close>

text \<open>The \<^verbatim>\<open>SET\<close> list of the trigger's statement (migration lines 469-474). Every
  expression reads the row as it was before the statement: \<^verbatim>\<open>raised_amount\<close> in the
  \<^verbatim>\<open>CASE\<close> is the old total, so \<^verbatim>\<open>raised_amount + NEW.amount\<close> is the new one.\<close>

definition set_raised_and_status :: "timestamptz \<Rightarrow> donation \<Rightarrow> project \<Rightarrow> project" where
  "set_raised_and_status now NEW p =
     p\<lparr>raised_amount := sql_add (raised_amount p) (Some (amount NEW)),
       p_status :=
         (if sql_true (sql_ge (sql_add (raised_amount p) (Some (amount NEW)))
                              (Some (goal_amount p)))
          then Some ps_fully_funded
          else p_status p),
       updated_at := Some now\<rparr>"

text \<open>\<^verbatim>\<open>update_updated_at_column\<close>, the \<^verbatim>\<open>BEFORE UPDATE ON projects\<close> trigger function
  (migration lines 481-487, 500-503).\<close>

definition update_updated_at_column :: "timestamptz \<Rightarrow> project \<Rightarrow> project" where
  "update_updated_at_column now NEW = NEW\<lparr>updated_at := Some now\<rparr>"

text \<open>\<^verbatim>\<open>UPDATE projects SET ... WHERE id = NEW.project_id\<close>: every row whose \<^verbatim>\<open>id\<close> matches
  gets the new values, is stored into its \<^verbatim>\<open>decimal(12, 2)\<close> column, passes through the
  \<^verbatim>\<open>BEFORE UPDATE\<close> trigger and is checked; a row that does not match stays as it is. An
  error on any row fails the statement.\<close>

fun update_projects :: "timestamptz \<Rightarrow> donation \<Rightarrow> project list \<Rightarrow> error + project list" where
  "update_projects now NEW [] = Inr []"
| "update_projects now NEW (p # ps) =
     (if p_id p = project_id NEW then
        (let p' = set_raised_and_status now NEW p in
         if \<not> fits_decimal_12_2 (raised_amount p') then Inl numeric_value_out_of_range
         else
           (let p'' = update_updated_at_column now p' in
            if \<not> projects_check p'' then Inl check_violation
            else (case update_projects now NEW ps of
                    Inl e \<Rightarrow> Inl e
                  | Inr ps' \<Rightarrow> Inr (p'' # ps'))))
      else (case update_projects now NEW ps of
              Inl e \<Rightarrow> Inl e
            | Inr ps' \<Rightarrow> Inr (p # ps')))"

text \<open>The condition of the trigger function's \<^verbatim>\<open>IF\<close> (migration line 467).\<close>

definition status_becomes_completed :: "donation \<Rightarrow> donation \<Rightarrow> bool" where
  "status_becomes_completed OLD NEW =
     sql_true (sql_and (sql_eq (d_status NEW) (Some ds_completed))
                       (sql_neq (d_status OLD) (Some ds_completed)))"

text \<open>\<^verbatim>\<open>update_project_raised_amount()\<close> (migration lines 464-479): the new database and
  the row it returns (\<^verbatim>\<open>RETURN NEW\<close>).\<close>

definition update_project_raised_amount ::
  "timestamptz \<Rightarrow> donation \<Rightarrow> donation \<Rightarrow> db \<Rightarrow> error + (db \<times> donation)" where
  "update_project_raised_amount now OLD NEW s =
     (if status_becomes_completed OLD NEW then
        (case update_projects now NEW (projects s) of
           Inl e \<Rightarrow> Inl e
         | Inr ps \<Rightarrow> Inr (s\<lparr>projects := ps\<rparr>, NEW))
      else Inr (s, NEW))"

text \<open>\<^verbatim>\<open>CREATE TRIGGER on_donation_completed AFTER UPDATE ON donations FOR EACH ROW\<close>
  (migration lines 490-493): the function runs once for each updated row, with the row
  before and after; the row an \<^verbatim>\<open>AFTER\<close> trigger returns is ignored.\<close>

fun on_donation_completed :: "timestamptz \<Rightarrow> (donation \<times> donation) list \<Rightarrow> db \<Rightarrow> error + db" where
  "on_donation_completed now [] s = Inr s"
| "on_donation_completed now ((OLD, NEW) # rows) s =
     (case update_project_raised_amount now OLD NEW s of
        Inl e \<Rightarrow> Inl e
      | Inr (s', _) \<Rightarrow> on_donation_completed now rows s')"

subsection \<open>Statements on donations\<close>

text \<open>\<^verbatim>\<open>UPDATE donations SET ... WHERE id = did\<close>, the \<^verbatim>\<open>SET\<close> list given as the function
  \<open>f\<close> from the old row to the new one. The new rows are stored and checked (column type,
  \<^verbatim>\<open>CHECK\<close>, unique indexes, foreign keys), then the \<^verbatim>\<open>AFTER UPDATE\<close> trigger runs for
  each of them. No row matching is not an error. The statement is run by a role that
  row-level security does not restrict: the policies on \<^verbatim>\<open>donations\<close> allow the
  \<^verbatim>\<open>authenticated\<close> role \<^verbatim>\<open>SELECT\<close> and \<^verbatim>\<open>INSERT\<close> only, and the trigger function is
  \<^verbatim>\<open>SECURITY DEFINER\<close>.\<close>

definition update_donation ::
  "timestamptz \<Rightarrow> uuid \<Rightarrow> (donation \<Rightarrow> donation) \<Rightarrow> db \<Rightarrow> error + db" where
  "update_donation now did f s =
     (let olds = filter (\<lambda>d. d_id d = did) (donations s);
          ds' = map (\<lambda>d. if d_id d = did then f d else d) (donations s)
      in if \<exists>d \<in> set olds. \<not> fits_decimal_12_2 (Some (amount (f d)))
         then Inl numeric_value_out_of_range
         else if \<exists>d \<in> set olds. \<not> donations_check (f d) then Inl check_violation
         else if \<exists>d \<in> set olds. \<not> donations_unique ds' (f d) then Inl unique_violation
         else if \<exists>d \<in> set olds. \<not> donations_fkey s (f d) then Inl foreign_key_violation
         else on_donation_completed now (map (\<lambda>d. (d, f d)) olds) (s\<lparr>donations := ds'\<rparr>))"

text \<open>\<^verbatim>\<open>INSERT INTO donations\<close> of one row. The only trigger on \<^verbatim>\<open>donations\<close> is
  \<^verbatim>\<open>AFTER UPDATE\<close>, so none runs here.\<close>

definition insert_donation :: "donation \<Rightarrow> db \<Rightarrow> error + db" where
  "insert_donation d s =
     (let ds' = donations s @ [d]
      in if \<not> fits_decimal_12_2 (Some (amount d)) then Inl numeric_value_out_of_range
         else if \<not> donations_check d then Inl check_violation
         else if \<not> donations_unique ds' d then Inl unique_violation
         else if \<not> donations_fkey s d then Inl foreign_key_violation
         else Inr (s\<lparr>donations := ds'\<rparr>))"

text \<open>The row-level security policy "Authenticated users can create donations"
  (\<^verbatim>\<open>FOR INSERT ... WITH CHECK (donor_id = auth.uid())\<close>, migration lines 626-630), for an
  insert made by the signed-in user \<open>uid\<close>.\<close>

definition insert_donation_as :: "uuid \<Rightarrow> donation \<Rightarrow> db \<Rightarrow> error + db" where
  "insert_donation_as uid d s =
     (if \<not> sql_true (sql_eq (donor_id d) (Some uid)) then Inl insufficient_privilege
      else insert_donation d s)"

text \<open>A statement that fails leaves the database as it was.\<close>

definition run_statement :: "(db \<Rightarrow> error + db) \<Rightarrow> db \<Rightarrow> db \<times> error option" where
  "run_statement stmt s = (case stmt s of Inl e \<Rightarrow> (s, Some e) | Inr s' \<Rightarrow> (s', None))"

subsection \<open>The donation modal\<close>

text \<open>\<^verbatim>\<open>handleDonate\<close> of the donation modal. \<open>user\<close> is the signed-in user, if any;
  \<open>donationAmount\<close> is \<^verbatim>\<open>parseFloat(amount)\<close> in hundredths, \<open>None\<close> for NaN; \<open>new_id\<close>,
  \<open>txn\<close> and \<open>now\<close> stand for \<^verbatim>\<open>gen_random_uuid()\<close>, the generated transaction id and
  \<^verbatim>\<open>now()\<close>. The result is the database and what the modal does next.\<close>

datatype modal_outcome =
  NotSignedIn
  | InvalidAmount
  | DonationFailed error
  | DonationSucceeded

definition handleDonate ::
  "uuid option \<Rightarrow> numeric option \<Rightarrow> string \<Rightarrow> bool \<Rightarrow> uuid \<Rightarrow> uuid \<Rightarrow> string \<Rightarrow> timestamptz
     \<Rightarrow> db \<Rightarrow> db \<times> modal_outcome" where
  "handleDonate user donationAmount msg isAnonymous projectId new_id txn now s =
     (case user of
        None \<Rightarrow> (s, NotSignedIn)
      | Some uid \<Rightarrow>
          (case donationAmount of
             None \<Rightarrow> (s, InvalidAmount)
           | Some a \<Rightarrow>
               if a \<le> 0 then (s, InvalidAmount)
               else
                 (case run_statement
                         (insert_donation_as uid
                            \<lparr>d_id = new_id, donor_id = Some uid, project_id = projectId,
                             amount = a, transaction_id = Some txn,
                             d_status = Some ds_completed, message = Some msg,
                             is_anonymous = Some isAnonymous, d_created_at = Some now\<rparr>)
                         s of
                    (s', Some e) \<Rightarrow> (s', DonationFailed e)
                  | (s', None) \<Rightarrow> (s', DonationSucceeded))))"

subsection \<open>Sequences of status writes, and what the properties are stated with\<close>

text \<open>\<^verbatim>\<open>UPDATE donations SET status = st WHERE id = did\<close>, as a \<^verbatim>\<open>SET\<close> list.\<close>

definition set_status :: "donation_status option \<Rightarrow> donation \<Rightarrow> donation" where
  "set_status st d = d\<lparr>d_status := st\<rparr>"

text \<open>One such statement after the other on the same donation, each at its own time; the
  first that fails ends the run.\<close>

fun write_statuses :: "uuid \<Rightarrow> (timestamptz \<times> donation_status option) list \<Rightarrow> db \<Rightarrow> error + db" where
  "write_statuses did [] s = Inr s"
| "write_statuses did ((now, st) # ws) s =
     (case update_donation now did (set_status st) s of
        Inl e \<Rightarrow> Inl e
      | Inr s' \<Rightarrow> write_statuses did ws s')"

text \<open>How many of the writes \<open>ws\<close>, starting from the status \<open>cur\<close>, move the status from a
  value that is neither NULL nor \<^verbatim>\<open>completed\<close> to \<^verbatim>\<open>completed\<close>.\<close>

fun entries_into_completed :: "donation_status option \<Rightarrow> donation_status option list \<Rightarrow> nat" where
  "entries_into_completed cur [] = 0"
| "entries_into_completed cur (st # ws) =
     (if st = Some ds_completed \<and> cur \<noteq> None \<and> cur \<noteq> Some ds_completed then 1 else 0)
     + entries_into_completed st ws"

text \<open>The order on a nullable total: NULL stays NULL, a number does not shrink.\<close>

fun raised_le :: "numeric option \<Rightarrow> numeric option \<Rightarrow> bool" where
  "raised_le None None = True"
| "raised_le (Some a) (Some b) = (a \<le> b)"
| "raised_le _ _ = False"

text \<open>Sample rows: a project of profile 9 and a donation of profile 9 to project 1.\<close>

definition demo_project :: "uuid \<Rightarrow> numeric \<Rightarrow> numeric \<Rightarrow> project_status \<Rightarrow> timestamptz \<Rightarrow> project" where
  "demo_project i goal raised st upd =
     \<lparr>p_id = i, creator_id = 9, title = ''Well'', description = ''A village well'',
      goal_amount = goal, raised_amount = Some raised, p_status = Some st,
      category_id = None, location = ''Kano'', start_date = None, end_date = None,
      image_url = None, p_created_at = Some 0, updated_at = Some upd\<rparr>"

definition demo_donation :: "uuid \<Rightarrow> uuid \<Rightarrow> numeric \<Rightarrow> donation_status \<Rightarrow> donation" where
  "demo_donation i pid a st =
     \<lparr>d_id = i, donor_id = Some 9, project_id = pid, amount = a, transaction_id = None,
      d_status = Some st, message = None, is_anonymous = Some False, d_created_at = Some 0\<rparr>"

definition demo_db :: "project list \<Rightarrow> donation list \<Rightarrow> db" where
  "demo_db ps ds = \<lparr>profiles = [9], projects = ps, donations = ds\<rparr>"

section \<open>Auxiliary facts\<close>

lemmas demo_defs = demo_project_def demo_donation_def demo_db_def set_status_def

lemmas sql_defs = sql_eq_def sql_neq_def sql_ge_def sql_gt_def sql_add_def sql_true_def
  sql_check_def

lemmas stmt_defs = update_donation_def run_statement_def update_project_raised_amount_def
  status_becomes_completed_def set_raised_and_status_def update_updated_at_column_def
  fits_decimal_12_2_def projects_check_def donations_check_def donations_unique_def
  donations_fkey_def

lemma sql_and_True_iff:
  "sql_and a b = Some True \<longleftrightarrow> a = Some True \<and> b = Some True"
  by (induction a b rule: sql_and.induct) auto

text \<open>The \<^verbatim>\<open>IF\<close> of the trigger function is taken exactly when the new status is
  \<^verbatim>\<open>completed\<close> and the old one is some other, non-NULL, status.\<close>

lemma status_becomes_completed_iff:
  "status_becomes_completed OLD NEW \<longleftrightarrow>
     d_status NEW = Some ds_completed \<and> (\<exists>st. d_status OLD = Some st \<and> st \<noteq> ds_completed)"
  by (cases "d_status OLD"; cases "d_status NEW")
     (auto simp: status_becomes_completed_def sql_defs sql_and_True_iff)

lemma update_updated_at_column_set [simp]:
  "update_updated_at_column now (set_raised_and_status now NEW p)
     = set_raised_and_status now NEW p"
  by (simp add: update_updated_at_column_def set_raised_and_status_def)

lemma update_projects_Inr:
  "update_projects now NEW ps = Inr ps' \<Longrightarrow>
     ps' = map (\<lambda>p. if p_id p = project_id NEW then set_raised_and_status now NEW p else p) ps"
  by (induction ps arbitrary: ps') (auto simp: Let_def split: if_splits sum.splits)

lemma update_project_raised_amount_Inr:
  assumes "update_project_raised_amount now OLD NEW s = Inr (s', N)"
  shows "N = NEW"
    and "s' = s\<lparr>projects :=
              (if status_becomes_completed OLD NEW
               then map (\<lambda>p. if p_id p = project_id NEW
                              then set_raised_and_status now NEW p else p)
                        (projects s)
               else projects s)\<rparr>"
  using assms
  by (auto simp: update_project_raised_amount_def split: if_splits sum.splits
           dest: update_projects_Inr)

lemma on_donation_completed_frame:
  "on_donation_completed now rows s = Inr s' \<Longrightarrow>
     donations s' = donations s \<and> profiles s' = profiles s"
proof (induction rows arbitrary: s)
  case Nil
  then show ?case by simp
next
  case (Cons r rows)
  obtain OLD NEW where r: "r = (OLD, NEW)" by (cases r)
  from Cons.prems r obtain s1 N where
    1: "update_project_raised_amount now OLD NEW s = Inr (s1, N)"
    and 2: "on_donation_completed now rows s1 = Inr s'"
    by (auto split: sum.splits)
  from update_project_raised_amount_Inr(2)[OF 1]
  have "donations s1 = donations s \<and> profiles s1 = profiles s"
    by simp
  with Cons.IH[OF 2] show ?case by simp
qed

text \<open>A reflexive and transitive relation between a project row before and after, which
  every credit respects, holds between the tables before and after the trigger has run
  for all rows.\<close>

lemma on_donation_completed_rel:
  assumes refl: "\<And>p. R p p"
    and trans: "\<And>p q r. R p q \<Longrightarrow> R q r \<Longrightarrow> R p r"
    and step: "\<And>OLD NEW p. (OLD, NEW) \<in> set rows \<Longrightarrow> status_becomes_completed OLD NEW
                 \<Longrightarrow> R p (set_raised_and_status now NEW p)"
    and ok: "on_donation_completed now rows s = Inr s'"
  shows "list_all2 R (projects s) (projects s')"
  using step ok
proof (induction rows arbitrary: s)
  case Nil
  then show ?case by (simp add: list_all2_refl refl)
next
  case (Cons r rows)
  obtain OLD NEW where r: "r = (OLD, NEW)" by (cases r)
  from Cons.prems(2) r obtain s1 N where
    1: "update_project_raised_amount now OLD NEW s = Inr (s1, N)"
    and 2: "on_donation_completed now rows s1 = Inr s'"
    by (auto split: sum.splits)
  have st: "status_becomes_completed OLD NEW \<Longrightarrow> R p (set_raised_and_status now NEW p)" for p
    using Cons.prems(1)[of OLD NEW p] r by simp
  have a: "list_all2 R (projects s) (projects s1)"
    using update_project_raised_amount_Inr(2)[OF 1] st
    by (auto simp: list_all2_map2 refl intro!: list_all2_refl)
  have b: "list_all2 R (projects s1) (projects s')"
  proof (rule Cons.IH[OF _ 2])
    fix OLD' NEW' p
    assume "(OLD', NEW') \<in> set rows" and "status_becomes_completed OLD' NEW'"
    then show "R p (set_raised_and_status now NEW' p)"
      using Cons.prems(1)[of OLD' NEW' p] by simp
  qed
  show ?case
    using list_all2_trans[of R R R, OF _ a b] trans by blast
qed

lemma update_donation_Inr:
  assumes "update_donation now did f s = Inr s'"
  shows "on_donation_completed now
           (map (\<lambda>d. (d, f d)) (filter (\<lambda>d. d_id d = did) (donations s)))
           (s\<lparr>donations := map (\<lambda>d. if d_id d = did then f d else d) (donations s)\<rparr>) = Inr s'"
    and "\<And>d. d \<in> set (donations s) \<Longrightarrow> d_id d = did \<Longrightarrow> donations_check (f d)"
  using assms by (auto simp: update_donation_def Let_def split: if_splits)

lemma update_donation_rel:
  assumes refl: "\<And>p. R p p"
    and trans: "\<And>p q r. R p q \<Longrightarrow> R q r \<Longrightarrow> R p r"
    and step: "\<And>OLD NEW p. status_becomes_completed OLD NEW \<Longrightarrow> donations_check NEW
                 \<Longrightarrow> R p (set_raised_and_status now NEW p)"
  shows "list_all2 R (projects s) (projects (fst (run_statement (update_donation now did f) s)))"
proof (cases "update_donation now did f s")
  case (Inl e)
  then show ?thesis by (simp add: run_statement_def list_all2_refl refl)
next
  case (Inr s')
  have "list_all2 R
          (projects (s\<lparr>donations := map (\<lambda>d. if d_id d = did then f d else d) (donations s)\<rparr>))
          (projects s')"
  proof (rule on_donation_completed_rel[where R = R, OF refl trans _ update_donation_Inr(1)[OF Inr]])
    fix OLD NEW p
    assume "(OLD, NEW) \<in> set (map (\<lambda>d. (d, f d)) (filter (\<lambda>d. d_id d = did) (donations s)))"
      and fires: "status_becomes_completed OLD NEW"
    then have "donations_check NEW"
      using update_donation_Inr(2)[OF Inr] by auto
    with fires show "R p (set_raised_and_status now NEW p)" by (rule step)
  qed
  with Inr show ?thesis by (simp add: run_statement_def)
qed

section \<open>The properties\<close>

subsection \<open>A terminal project status is not protected\<close>

text \<open>
  Claim C1 as the specification states it fails on its own scenario. A project with status
  \<^verbatim>\<open>cancelled\<close>, \<^verbatim>\<open>raised_amount = 20.00\<close> and \<^verbatim>\<open>goal_amount = 50.00\<close> whose pending donation
  of \<^verbatim>\<open>40.00\<close> is updated to \<^verbatim>\<open>completed\<close> ends with \<^verbatim>\<open>raised_amount = 60.00\<close> and status
  \<^verbatim>\<open>fully_funded\<close>, not \<^verbatim>\<open>cancelled\<close>: the \<^verbatim>\<open>CASE\<close> of the trigger looks at the amounts only.
\<close>

theorem cancelled_project_becomes_fully_funded:
  "run_statement (update_donation 5 7 (set_status (Some ds_completed)))
     (demo_db [demo_project 1 5000 2000 ps_cancelled 0] [demo_donation 7 1 4000 ds_pending])
   = (demo_db [demo_project 1 5000 6000 ps_fully_funded 5] [demo_donation 7 1 4000 ds_completed],
      None)
   \<and> demo_project 1 5000 6000 ps_fully_funded 5 \<noteq> demo_project 1 5000 6000 ps_cancelled 5"
  by (simp add: demo_defs sql_defs stmt_defs)

text \<open>
  C1, amended: take a run of the trigger function \<^verbatim>\<open>update_project_raised_amount\<close> that
  returns without error, for a donation whose new status is \<^verbatim>\<open>completed\<close> and whose old
  status is not NULL and is not \<^verbatim>\<open>completed\<close>. Then every project row whose \<^verbatim>\<open>id\<close> is the
  donation's \<^verbatim>\<open>project_id\<close> and whose \<^verbatim>\<open>raised_amount\<close> is not NULL gets the amount added
  to \<^verbatim>\<open>raised_amount\<close>, and its status becomes \<^verbatim>\<open>fully_funded\<close> when the total after the
  addition is at least \<^verbatim>\<open>goal_amount\<close>, whatever the status was before, \<^verbatim>\<open>completed\<close> and
  \<^verbatim>\<open>cancelled\<close> included; when that total is below \<^verbatim>\<open>goal_amount\<close> the status stays as it
  was. A row with that \<^verbatim>\<open>id\<close> whose \<^verbatim>\<open>raised_amount\<close> is NULL keeps the NULL and its
  status. In both cases \<^verbatim>\<open>updated_at\<close> is set to the time of the statement, and every other
  project row is unchanged.
\<close>

theorem completed_donation_credits_whatever_status:
  assumes "d_status NEW = Some ds_completed"
    and "d_status OLD = Some st" and "st \<noteq> ds_completed"
    and "update_project_raised_amount now OLD NEW s = Inr (s', N)"
  shows "projects s' =
           map (\<lambda>p. if p_id p = project_id NEW
                     then p\<lparr>raised_amount :=
                              (case raised_amount p of None \<Rightarrow> None
                               | Some r \<Rightarrow> Some (r + amount NEW)),
                            p_status :=
                              (case raised_amount p of None \<Rightarrow> p_status p
                               | Some r \<Rightarrow> if r + amount NEW \<ge> goal_amount p
                                           then Some ps_fully_funded else p_status p),
                            updated_at := Some now\<rparr>
                     else p)
               (projects s)"
proof -
  have fires: "status_becomes_completed OLD NEW"
    using assms(1-3) by (simp add: status_becomes_completed_iff)
  have "projects s' =
          map (\<lambda>p. if p_id p = project_id NEW then set_raised_and_status now NEW p else p)
              (projects s)"
    using update_project_raised_amount_Inr(2)[OF assms(4)] fires by simp
  moreover have "set_raised_and_status now NEW p =
      p\<lparr>raised_amount := (case raised_amount p of None \<Rightarrow> None
                            | Some r \<Rightarrow> Some (r + amount NEW)),
        p_status := (case raised_amount p of None \<Rightarrow> p_status p
                     | Some r \<Rightarrow> if r + amount NEW \<ge> goal_amount p
                                 then Some ps_fully_funded else p_status p),
        updated_at := Some now\<rparr>" for p
    by (cases "raised_amount p") (simp_all add: set_raised_and_status_def sql_defs)
  ultimately show ?thesis by simp
qed

theorem completed_donation_credits_whatever_status_witness:
  "d_status (demo_donation 7 1 4000 ds_completed) = Some ds_completed
   \<and> d_status (demo_donation 7 1 4000 ds_pending) = Some ds_pending
   \<and> ds_pending \<noteq> ds_completed
   \<and> update_project_raised_amount 5
        (demo_donation 7 1 4000 ds_pending) (demo_donation 7 1 4000 ds_completed)
        (demo_db [demo_project 1 5000 2000 ps_cancelled 0] [demo_donation 7 1 4000 ds_completed])
      = Inr (demo_db [demo_project 1 5000 6000 ps_fully_funded 5]
                     [demo_donation 7 1 4000 ds_completed],
             demo_donation 7 1 4000 ds_completed)
   \<and> projects (demo_db [demo_project 1 5000 6000 ps_fully_funded 5]
                        [demo_donation 7 1 4000 ds_completed])
      = [demo_project 1 5000 6000 ps_fully_funded 5]"
proof -
  have run: "update_project_raised_amount 5
        (demo_donation 7 1 4000 ds_pending) (demo_donation 7 1 4000 ds_completed)
        (demo_db [demo_project 1 5000 2000 ps_cancelled 0] [demo_donation 7 1 4000 ds_completed])
      = Inr (demo_db [demo_project 1 5000 6000 ps_fully_funded 5]
                     [demo_donation 7 1 4000 ds_completed],
             demo_donation 7 1 4000 ds_completed)"
    by (simp add: demo_defs sql_defs stmt_defs)
  have new: "d_status (demo_donation 7 1 4000 ds_completed) = Some ds_completed"
    and old: "d_status (demo_donation 7 1 4000 ds_pending) = Some ds_pending"
    by (simp_all add: demo_defs)
  have "projects (demo_db [demo_project 1 5000 6000 ps_fully_funded 5]
                        [demo_donation 7 1 4000 ds_completed])
      = [demo_project 1 5000 6000 ps_fully_funded 5]"
    using completed_donation_credits_whatever_status [OF new old _ run]
    by (simp add: demo_defs)
  with run new old show ?thesis by simp
qed

subsection \<open>Inserted donations are never credited\<close>

text \<open>
  Claim C2: a donation row inserted with status \<^verbatim>\<open>completed\<close> does not change any project,
  because \<^verbatim>\<open>on_donation_completed\<close> is an \<^verbatim>\<open>AFTER UPDATE\<close> trigger and no trigger runs on
  \<^verbatim>\<open>INSERT\<close>. The donation modal's \<^verbatim>\<open>handleDonate\<close> only ever inserts, always with
  status \<^verbatim>\<open>completed\<close>, so whatever it is given it leaves the \<^verbatim>\<open>projects\<close> table, and with it
  every \<^verbatim>\<open>raised_amount\<close>, as it was.
\<close>

theorem insert_never_credits_project:
  "projects (fst (run_statement (insert_donation d) s)) = projects s
   \<and> projects (fst (handleDonate user a msg anon pid nid txn now s)) = projects s
   \<and> (snd (handleDonate user a msg anon pid nid txn now s) = DonationSucceeded \<longrightarrow>
        (\<exists>row. donations (fst (handleDonate user a msg anon pid nid txn now s)) = donations s @ [row]
               \<and> d_status row = Some ds_completed \<and> project_id row = pid \<and> Some (amount row) = a))"
  by (auto simp: handleDonate_def run_statement_def insert_donation_as_def insert_donation_def
        Let_def split: option.splits sum.splits if_splits)

theorem insert_never_credits_project_witness:
  "snd (handleDonate (Some 9) (Some 4000) ''hi'' False 1 7 ''txn_1'' 5
          (demo_db [demo_project 1 5000 2000 ps_active 0] [])) = DonationSucceeded
   \<and> projects (fst (handleDonate (Some 9) (Some 4000) ''hi'' False 1 7 ''txn_1'' 5
          (demo_db [demo_project 1 5000 2000 ps_active 0] [])))
     = [demo_project 1 5000 2000 ps_active 0]"
proof -
  have ok: "snd (handleDonate (Some 9) (Some 4000) ''hi'' False 1 7 ''txn_1'' 5
          (demo_db [demo_project 1 5000 2000 ps_active 0] [])) = DonationSucceeded"
    by (simp add: handleDonate_def run_statement_def insert_donation_as_def insert_donation_def
          demo_defs sql_defs stmt_defs)
  show ?thesis
    using ok insert_never_credits_project
      [of "demo_donation 7 1 4000 ds_completed" "demo_db [demo_project 1 5000 2000 ps_active 0] []" "Some 9" "Some 4000"
          "''hi''" False 1 7 "''txn_1''" 5]
    by (simp add: demo_db_def)
qed

subsection \<open>A donation is credited at every entry into completed\<close>

text \<open>
  Claim C3 as the specification states it fails: a donation of \<^verbatim>\<open>30.00\<close> whose status
  goes \<^verbatim>\<open>pending\<close>, \<^verbatim>\<open>completed\<close>, \<^verbatim>\<open>refunded\<close>, \<^verbatim>\<open>completed\<close> raises its project's
  \<^verbatim>\<open>raised_amount\<close> from \<^verbatim>\<open>0.00\<close> to \<^verbatim>\<open>60.00\<close>, not to \<^verbatim>\<open>30.00\<close>. The trigger function
  compares the old and the new status of the one write and keeps no record of an earlier
  credit.
\<close>

theorem recompleted_donation_is_credited_again:
  "write_statuses 7 [(1, Some ds_completed), (2, Some ds_refunded), (3, Some ds_completed)]
     (demo_db [demo_project 1 10000 0 ps_active 0] [demo_donation 7 1 3000 ds_pending])
   = Inr (demo_db [demo_project 1 10000 6000 ps_active 3] [demo_donation 7 1 3000 ds_completed])
   \<and> raised_amount (demo_project 1 10000 6000 ps_active 3) \<noteq> Some (0 + 3000)"
  by (simp add: demo_defs sql_defs stmt_defs)

lemma sql_add_zero: "sql_add x (Some 0) = x"
  by (cases x) (simp_all add: sql_add_def)

lemma sql_add_assoc: "sql_add (sql_add x (Some a)) (Some b) = sql_add x (Some (a + b))"
  by (cases x) (simp_all add: sql_add_def)

lemma filter_updated_rows:
  assumes "\<And>d. d_id (f d) = d_id d"
  shows "filter (\<lambda>d. d_id d = did) (map (\<lambda>d. if d_id d = did then f d else d) ds)
           = map f (filter (\<lambda>d. d_id d = did) ds)"
  using assms by (induction ds) auto

text \<open>One status write on the only row with the key \<open>did\<close>.\<close>

lemma set_status_step:
  assumes one: "filter (\<lambda>d. d_id d = did) (donations s) = [d0]"
    and run: "update_donation now did (set_status st) s = Inr s1"
  shows "filter (\<lambda>d. d_id d = did) (donations s1) = [set_status st d0]"
    and "list_all2 (\<lambda>p p'. p_id p' = p_id p \<and> raised_amount p' =
             (if p_id p = project_id d0
              then sql_add (raised_amount p)
                     (Some (amount d0 * int (entries_into_completed (d_status d0) [st])))
              else raised_amount p))
           (projects s) (projects s1)"
proof -
  let ?s0 = "s\<lparr>donations := map (\<lambda>d. if d_id d = did then set_status st d else d) (donations s)\<rparr>"
  have trig: "on_donation_completed now [(d0, set_status st d0)] ?s0 = Inr s1"
    using update_donation_Inr(1)[OF run] one by simp
  then obtain N where upra: "update_project_raised_amount now d0 (set_status st d0) ?s0 = Inr (s1, N)"
    by (auto split: sum.splits)
  have "donations s1 = donations ?s0"
    using on_donation_completed_frame[OF trig] by simp
  then show "filter (\<lambda>d. d_id d = did) (donations s1) = [set_status st d0]"
    using one filter_updated_rows[of "set_status st" did "donations s"]
    by (simp add: set_status_def)
  have fires: "status_becomes_completed d0 (set_status st d0)
                 \<longleftrightarrow> entries_into_completed (d_status d0) [st] = 1"
    by (auto simp: status_becomes_completed_iff set_status_def)
  have nofire: "\<not> status_becomes_completed d0 (set_status st d0)
                 \<longleftrightarrow> entries_into_completed (d_status d0) [st] = 0"
    by (auto simp: status_becomes_completed_iff set_status_def)
  show "list_all2 (\<lambda>p p'. p_id p' = p_id p \<and> raised_amount p' =
             (if p_id p = project_id d0
              then sql_add (raised_amount p)
                     (Some (amount d0 * int (entries_into_completed (d_status d0) [st])))
              else raised_amount p))
           (projects s) (projects s1)"
  proof (cases "status_becomes_completed d0 (set_status st d0)")
    case True
    then have n: "entries_into_completed (d_status d0) [st] = 1"
      using fires by simp
    from True update_project_raised_amount_Inr(2)[OF upra]
    have "projects s1 = map (\<lambda>p. if p_id p = project_id d0
                                  then set_raised_and_status now (set_status st d0) p else p)
                            (projects s)"
      by (simp add: set_status_def)
    then show ?thesis
      unfolding n
      by (auto simp: list_all2_map2 set_raised_and_status_def set_status_def
               intro!: list_all2_refl)
  next
    case False
    then have n: "entries_into_completed (d_status d0) [st] = 0"
      using nofire by simp
    from False update_project_raised_amount_Inr(2)[OF upra]
    have "projects s1 = projects s" by simp
    then show ?thesis
      unfolding n by (auto simp: sql_add_zero intro!: list_all2_refl)
  qed
qed

text \<open>
  C3, amended: for a donation that is the only row with its \<^verbatim>\<open>id\<close>, and every sequence of
  status writes on it that the database accepts, the amount is added to the
  \<^verbatim>\<open>raised_amount\<close> of the project it points to once for every write that moves the status
  from a non-NULL status other than \<^verbatim>\<open>completed\<close> to \<^verbatim>\<open>completed\<close>: once if the status
  enters \<^verbatim>\<open>completed\<close> once, and again at every re-entry (\<^verbatim>\<open>completed\<close>, \<^verbatim>\<open>refunded\<close>,
  \<^verbatim>\<open>completed\<close>). Other projects keep their totals.
\<close>

theorem credited_once_per_entry_into_completed:
  assumes "filter (\<lambda>d. d_id d = did) (donations s) = [d0]"
    and "write_statuses did ws s = Inr s'"
  shows "list_all2 (\<lambda>p p'. p_id p' = p_id p \<and> raised_amount p' =
             (if p_id p = project_id d0
              then sql_add (raised_amount p)
                     (Some (amount d0 * int (entries_into_completed (d_status d0) (map snd ws))))
              else raised_amount p))
           (projects s) (projects s')"
  using assms
proof (induction ws arbitrary: s d0)
  case Nil
  then show ?case
    by (auto simp: sql_add_zero intro!: list_all2_refl)
next
  case (Cons w ws)
  obtain now st where w: "w = (now, st)" by (cases w)
  from Cons.prems(2) w obtain s1 where
    1: "update_donation now did (set_status st) s = Inr s1"
    and 2: "write_statuses did ws s1 = Inr s'"
    by (auto split: sum.splits)
  note step = set_status_step[OF Cons.prems(1) 1]
  have rest: "list_all2 (\<lambda>p p'. p_id p' = p_id p \<and> raised_amount p' =
             (if p_id p = project_id d0
              then sql_add (raised_amount p)
                     (Some (amount d0 * int (entries_into_completed st (map snd ws))))
              else raised_amount p))
           (projects s1) (projects s')"
    using Cons.IH[OF step(1) 2] by (simp add: set_status_def cong: if_cong)
  have split: "entries_into_completed (d_status d0) (map snd (w # ws))
      = entries_into_completed (d_status d0) [st] + entries_into_completed st (map snd ws)"
    using w by simp
  show ?case
    unfolding split
    by (rule list_all2_trans[OF _ step(2) rest])
       (auto simp: sql_add_assoc distrib_left)
qed

theorem credited_once_per_entry_into_completed_witness:
  "write_statuses 7 [(1, Some ds_completed), (2, Some ds_refunded), (3, Some ds_completed)]
     (demo_db [demo_project 1 10000 0 ps_active 0] [demo_donation 7 1 3000 ds_pending])
   = Inr (demo_db [demo_project 1 10000 6000 ps_active 3] [demo_donation 7 1 3000 ds_completed])
   \<and> entries_into_completed (Some ds_pending) [Some ds_completed, Some ds_refunded, Some ds_completed] = 2
   \<and> list_all2 (\<lambda>p p'. p_id p' = p_id p \<and> raised_amount p' = sql_add (raised_amount p) (Some (3000 * 2)))
       [demo_project 1 10000 0 ps_active 0] [demo_project 1 10000 6000 ps_active 3]"
proof -
  have one: "filter (\<lambda>d. d_id d = 7)
               (donations (demo_db [demo_project 1 10000 0 ps_active 0] [demo_donation 7 1 3000 ds_pending]))
             = [demo_donation 7 1 3000 ds_pending]"
    by (simp add: demo_defs)
  have run: "write_statuses 7 [(1, Some ds_completed), (2, Some ds_refunded), (3, Some ds_completed)]
     (demo_db [demo_project 1 10000 0 ps_active 0] [demo_donation 7 1 3000 ds_pending])
   = Inr (demo_db [demo_project 1 10000 6000 ps_active 3] [demo_donation 7 1 3000 ds_completed])"
    by (simp add: demo_defs sql_defs stmt_defs)
  show ?thesis
    using run credited_once_per_entry_into_completed[OF one run]
    by (simp add: demo_defs)
qed

subsection \<open>When the trigger does nothing\<close>

text \<open>
  Claim C4: an \<^verbatim>\<open>UPDATE\<close> of a donation changes the \<^verbatim>\<open>projects\<close> table only if it moves
  the status of a row from a value other than \<^verbatim>\<open>completed\<close> to \<^verbatim>\<open>completed\<close>. An update
  whose rows all had status \<^verbatim>\<open>completed\<close> already, or whose new status is not
  \<^verbatim>\<open>completed\<close> (in particular one that changes other columns only), leaves every
  project's \<^verbatim>\<open>raised_amount\<close>, \<^verbatim>\<open>status\<close> and other columns as they were, whether the
  statement succeeds or fails.
\<close>

theorem no_credit_without_entering_completed:
  assumes "\<forall>d \<in> set (donations s). d_id d = did \<longrightarrow>
             \<not> (d_status (f d) = Some ds_completed \<and> d_status d \<noteq> Some ds_completed)"
  shows "projects (fst (run_statement (update_donation now did f) s)) = projects s"
proof (cases "update_donation now did f s")
  case (Inl e)
  then show ?thesis by (simp add: run_statement_def)
next
  case (Inr s')
  have "list_all2 (=) (projects (s\<lparr>donations := map (\<lambda>d. if d_id d = did then f d else d) (donations s)\<rparr>))
          (projects s')"
  proof (rule on_donation_completed_rel[where R = "(=)", OF _ _ _ update_donation_Inr(1)[OF Inr]])
    fix OLD NEW and p :: project
    assume "(OLD, NEW) \<in> set (map (\<lambda>d. (d, f d)) (filter (\<lambda>d. d_id d = did) (donations s)))"
      and fires: "status_becomes_completed OLD NEW"
    then have False
      using assms by (auto simp: status_becomes_completed_iff)
    then show "p = set_raised_and_status now NEW p" ..
  qed simp_all
  then have "projects s' = projects s"
    unfolding list_all2_eq[symmetric] by simp
  with Inr show ?thesis by (simp add: run_statement_def)
qed

theorem no_credit_without_entering_completed_witness:
  "projects (fst (run_statement (update_donation 5 7 (\<lambda>d. d\<lparr>message := Some ''thanks''\<rparr>))
       (demo_db [demo_project 1 5000 2000 ps_active 0] [demo_donation 7 1 4000 ds_completed])))
   = [demo_project 1 5000 2000 ps_active 0]
   \<and> donations (fst (run_statement (update_donation 5 7 (\<lambda>d. d\<lparr>message := Some ''thanks''\<rparr>))
       (demo_db [demo_project 1 5000 2000 ps_active 0] [demo_donation 7 1 4000 ds_completed])))
   = [(demo_donation 7 1 4000 ds_completed)\<lparr>message := Some ''thanks''\<rparr>]"
proof -
  have "projects (fst (run_statement (update_donation 5 7 (\<lambda>d. d\<lparr>message := Some ''thanks''\<rparr>))
       (demo_db [demo_project 1 5000 2000 ps_active 0] [demo_donation 7 1 4000 ds_completed])))
   = projects (demo_db [demo_project 1 5000 2000 ps_active 0] [demo_donation 7 1 4000 ds_completed])"
    by (rule no_credit_without_entering_completed) (simp add: demo_defs)
  moreover have "donations (fst (run_statement (update_donation 5 7 (\<lambda>d. d\<lparr>message := Some ''thanks''\<rparr>))
       (demo_db [demo_project 1 5000 2000 ps_active 0] [demo_donation 7 1 4000 ds_completed])))
   = [(demo_donation 7 1 4000 ds_completed)\<lparr>message := Some ''thanks''\<rparr>]"
    by (simp add: demo_defs sql_defs stmt_defs)
  ultimately show ?thesis by (simp add: demo_db_def)
qed

subsection \<open>The threshold is tested on the total after the addition\<close>

text \<open>
  Claim C5: the \<^verbatim>\<open>CASE\<close> compares \<^verbatim>\<open>raised_amount + NEW.amount\<close>, the total after the
  addition, with \<^verbatim>\<open>goal_amount\<close>. For a project with \<^verbatim>\<open>goal_amount = 100.00\<close>,
  \<^verbatim>\<open>raised_amount = 0.00\<close> and status \<^verbatim>\<open>active\<close>, completing a donation of \<^verbatim>\<open>60.00\<close> gives
  \<^verbatim>\<open>raised_amount = 60.00\<close> and status \<^verbatim>\<open>active\<close>; completing a donation of \<^verbatim>\<open>50.00\<close>
  after it gives \<^verbatim>\<open>raised_amount = 110.00\<close> and status \<^verbatim>\<open>fully_funded\<close>, although the
  total before that addition, \<^verbatim>\<open>60.00\<close>, was below the goal.
\<close>

theorem threshold_checks_post_increment_total:
  "(raised_amount p = Some r \<longrightarrow>
      raised_amount (set_raised_and_status now NEW p) = Some (r + amount NEW)
      \<and> p_status (set_raised_and_status now NEW p)
          = (if r + amount NEW \<ge> goal_amount p then Some ps_fully_funded else p_status p))
   \<and> run_statement (update_donation 5 7 (set_status (Some ds_completed)))
       (demo_db [demo_project 1 10000 0 ps_active 0]
                [demo_donation 7 1 6000 ds_pending, demo_donation 8 1 5000 ds_pending])
     = (demo_db [demo_project 1 10000 6000 ps_active 5]
                [demo_donation 7 1 6000 ds_completed, demo_donation 8 1 5000 ds_pending], None)
   \<and> run_statement (update_donation 6 8 (set_status (Some ds_completed)))
       (demo_db [demo_project 1 10000 6000 ps_active 5]
                [demo_donation 7 1 6000 ds_completed, demo_donation 8 1 5000 ds_pending])
     = (demo_db [demo_project 1 10000 11000 ps_fully_funded 6]
                [demo_donation 7 1 6000 ds_completed, demo_donation 8 1 5000 ds_completed], None)"
proof (intro conjI impI)
  assume "raised_amount p = Some r"
  then show "raised_amount (set_raised_and_status now NEW p) = Some (r + amount NEW)"
    by (simp add: set_raised_and_status_def sql_defs)
next
  assume "raised_amount p = Some r"
  then show "p_status (set_raised_and_status now NEW p)
          = (if r + amount NEW \<ge> goal_amount p then Some ps_fully_funded else p_status p)"
    by (simp add: set_raised_and_status_def sql_defs)
qed (simp_all add: demo_defs sql_defs stmt_defs)

theorem threshold_checks_post_increment_total_witness:
  "raised_amount (demo_project 1 10000 6000 ps_active 5) = Some 6000
   \<and> raised_amount (set_raised_and_status 6 (demo_donation 8 1 5000 ds_completed)
                      (demo_project 1 10000 6000 ps_active 5)) = Some 11000
   \<and> p_status (set_raised_and_status 6 (demo_donation 8 1 5000 ds_completed)
                      (demo_project 1 10000 6000 ps_active 5)) = Some ps_fully_funded"
  using threshold_checks_post_increment_total
    [of "demo_project 1 10000 6000 ps_active 5" 6000 6 "demo_donation 8 1 5000 ds_completed"]
  by (simp add: demo_defs)

subsection \<open>A zero or negative amount is rejected\<close>

text \<open>
  Claim C6: a write of a donation whose amount is zero or negative fails and leaves the
  whole database, the target project included, as it was. The row is checked before the
  \<^verbatim>\<open>AFTER UPDATE\<close> trigger runs; the error is the violation of \<^verbatim>\<open>CHECK (amount > 0)\<close> for
  every amount that a \<^verbatim>\<open>decimal(12, 2)\<close> column can hold, and the column's overflow error
  otherwise. The same holds for an \<^verbatim>\<open>INSERT\<close>, and the donation modal refuses such an amount
  before it writes anything.
\<close>

theorem nonpositive_amount_is_rejected:
  "(filter (\<lambda>d. d_id d = did) (donations s) = [d] \<and> amount (f d) \<le> 0 \<longrightarrow>
      run_statement (update_donation now did f) s
        = (s, Some (if fits_decimal_12_2 (Some (amount (f d))) then check_violation
                    else numeric_value_out_of_range)))
   \<and> (amount d \<le> 0 \<longrightarrow>
        run_statement (insert_donation d) s
          = (s, Some (if fits_decimal_12_2 (Some (amount d)) then check_violation
                      else numeric_value_out_of_range)))
   \<and> (a \<le> 0 \<longrightarrow> handleDonate user (Some a) msg anon pid nid txn now s
                      = (s, if user = None then NotSignedIn else InvalidAmount))"
proof (intro conjI impI)
  assume h: "filter (\<lambda>d. d_id d = did) (donations s) = [d] \<and> amount (f d) \<le> 0"
  then have "\<not> donations_check (f d)"
    by (simp add: donations_check_def sql_defs)
  with h show "run_statement (update_donation now did f) s
        = (s, Some (if fits_decimal_12_2 (Some (amount (f d))) then check_violation
                    else numeric_value_out_of_range))"
    by (simp add: update_donation_def run_statement_def Let_def)
next
  assume "amount d \<le> 0"
  then have "\<not> donations_check d"
    by (simp add: donations_check_def sql_defs)
  then show "run_statement (insert_donation d) s
          = (s, Some (if fits_decimal_12_2 (Some (amount d)) then check_violation
                      else numeric_value_out_of_range))"
    by (simp add: insert_donation_def run_statement_def Let_def)
next
  assume "a \<le> 0"
  then show "handleDonate user (Some a) msg anon pid nid txn now s
                      = (s, if user = None then NotSignedIn else InvalidAmount)"
    by (simp add: handleDonate_def split: option.splits)
qed

theorem nonpositive_amount_is_rejected_witness:
  "run_statement (update_donation 5 7 (\<lambda>d. d\<lparr>amount := - 500, d_status := Some ds_completed\<rparr>))
     (demo_db [demo_project 1 5000 2000 ps_active 0] [demo_donation 7 1 4000 ds_pending])
   = (demo_db [demo_project 1 5000 2000 ps_active 0] [demo_donation 7 1 4000 ds_pending],
      Some check_violation)
   \<and> run_statement (insert_donation (demo_donation 8 1 (- 500) ds_completed))
     (demo_db [demo_project 1 5000 2000 ps_active 0] [demo_donation 7 1 4000 ds_pending])
   = (demo_db [demo_project 1 5000 2000 ps_active 0] [demo_donation 7 1 4000 ds_pending],
      Some check_violation)
   \<and> handleDonate (Some 9) (Some (- 500)) ''hi'' False 1 8 ''txn_1'' 5
       (demo_db [demo_project 1 5000 2000 ps_active 0] [demo_donation 7 1 4000 ds_pending])
   = (demo_db [demo_project 1 5000 2000 ps_active 0] [demo_donation 7 1 4000 ds_pending],
      InvalidAmount)"
  using nonpositive_amount_is_rejected
    [where did = 7 and now = 5
       and s = "demo_db [demo_project 1 5000 2000 ps_active 0] [demo_donation 7 1 4000 ds_pending]"
       and d = "demo_donation 7 1 4000 ds_pending"
       and f = "\<lambda>d. d\<lparr>amount := - 500, d_status := Some ds_completed\<rparr>"]
    nonpositive_amount_is_rejected
    [where s = "demo_db [demo_project 1 5000 2000 ps_active 0] [demo_donation 7 1 4000 ds_pending]"
       and d = "demo_donation 8 1 (- 500) ds_completed" and a = "- 500" and user = "Some 9"
       and msg = "''hi''" and anon = False and pid = 1 and nid = 8 and txn = "''txn_1''"
       and now = 5]
  by (simp add: demo_defs fits_decimal_12_2_def)

subsection \<open>The raised amount never decreases\<close>

lemma raised_le_refl: "raised_le x x"
  by (cases x) simp_all

lemma raised_le_trans: "raised_le x y \<Longrightarrow> raised_le y z \<Longrightarrow> raised_le x z"
  by (cases x; cases y; cases z) simp_all

lemma write_statuses_rel:
  assumes refl: "\<And>p. R p p"
    and trans: "\<And>p q r. R p q \<Longrightarrow> R q r \<Longrightarrow> R p r"
    and step: "\<And>now OLD NEW p. status_becomes_completed OLD NEW \<Longrightarrow> donations_check NEW
                 \<Longrightarrow> R p (set_raised_and_status now NEW p)"
    and ok: "write_statuses did ws s = Inr s'"
  shows "list_all2 R (projects s) (projects s')"
  using ok
proof (induction ws arbitrary: s)
  case Nil
  then show ?case by (simp add: list_all2_refl refl)
next
  case (Cons w ws)
  obtain now st where w: "w = (now, st)" by (cases w)
  from Cons.prems w obtain s1 where
    1: "update_donation now did (set_status st) s = Inr s1"
    and 2: "write_statuses did ws s1 = Inr s'"
    by (auto split: sum.splits)
  have "list_all2 R (projects s) (projects (fst (run_statement (update_donation now did (set_status st)) s)))"
    by (rule update_donation_rel[where R = R, OF refl trans step])
  with 1 have a: "list_all2 R (projects s) (projects s1)"
    by (simp add: run_statement_def)
  show ?case
    using list_all2_trans[of R R R, OF _ a Cons.IH[OF 2]] trans by blast
qed

lemma credit_raised_le:
  assumes "donations_check NEW"
  shows "p_id (set_raised_and_status now NEW p) = p_id p
         \<and> raised_le (raised_amount p) (raised_amount (set_raised_and_status now NEW p))"
  using assms
  by (cases "raised_amount p") (simp_all add: set_raised_and_status_def donations_check_def sql_defs)

text \<open>
  Claim C7: no \<^verbatim>\<open>UPDATE\<close> of a donation, and no sequence of status writes, ever lowers a
  project's \<^verbatim>\<open>raised_amount\<close>: row by row the table of projects keeps its \<^verbatim>\<open>id\<close>s, a
  NULL total stays NULL and a total that is a number does not shrink. A row that reaches
  the trigger has passed \<^verbatim>\<open>CHECK (amount > 0)\<close>, and a donation that becomes \<^verbatim>\<open>refunded\<close>
  subtracts nothing.
\<close>

theorem raised_amount_never_decreases:
  "list_all2 (\<lambda>p p'. p_id p' = p_id p \<and> raised_le (raised_amount p) (raised_amount p'))
     (projects s) (projects (fst (run_statement (update_donation now did f) s)))
   \<and> (write_statuses did ws s = Inr s' \<longrightarrow>
        list_all2 (\<lambda>p p'. p_id p' = p_id p \<and> raised_le (raised_amount p) (raised_amount p'))
          (projects s) (projects s'))"
proof (intro conjI impI)
  show "list_all2 (\<lambda>p p'. p_id p' = p_id p \<and> raised_le (raised_amount p) (raised_amount p'))
     (projects s) (projects (fst (run_statement (update_donation now did f) s)))"
    by (rule update_donation_rel)
       (auto simp: raised_le_refl credit_raised_le intro: raised_le_trans)
next
  assume "write_statuses did ws s = Inr s'"
  then show "list_all2 (\<lambda>p p'. p_id p' = p_id p \<and> raised_le (raised_amount p) (raised_amount p'))
          (projects s) (projects s')"
    by (rule write_statuses_rel[rotated 3])
       (auto simp: raised_le_refl credit_raised_le intro: raised_le_trans)
qed

theorem raised_amount_never_decreases_witness:
  "write_statuses 7 [(1, Some ds_completed), (2, Some ds_refunded)]
     (demo_db [demo_project 1 10000 0 ps_active 0] [demo_donation 7 1 3000 ds_pending])
   = Inr (demo_db [demo_project 1 10000 3000 ps_active 1] [demo_donation 7 1 3000 ds_refunded])
   \<and> list_all2 (\<lambda>p p'. p_id p' = p_id p \<and> raised_le (raised_amount p) (raised_amount p'))
       [demo_project 1 10000 0 ps_active 0] [demo_project 1 10000 3000 ps_active 1]"
proof -
  have run: "write_statuses 7 [(1, Some ds_completed), (2, Some ds_refunded)]
     (demo_db [demo_project 1 10000 0 ps_active 0] [demo_donation 7 1 3000 ds_pending])
   = Inr (demo_db [demo_project 1 10000 3000 ps_active 1] [demo_donation 7 1 3000 ds_refunded])"
    by (simp add: demo_defs sql_defs stmt_defs)
  show ?thesis
    using run raised_amount_never_decreases
      [of "demo_db [demo_project 1 10000 0 ps_active 0] [demo_donation 7 1 3000 ds_pending]"
          0 7 id "[(1, Some ds_completed), (2, Some ds_refunded)]"
          "demo_db [demo_project 1 10000 3000 ps_active 1] [demo_donation 7 1 3000 ds_refunded]"]
    by (simp add: demo_db_def)
qed

subsection \<open>A donation that points at no project\<close>

lemma update_projects_no_match:
  "project_id NEW \<notin> set (map p_id ps) \<Longrightarrow> update_projects now NEW ps = Inr ps"
  by (induction ps) auto

text \<open>
  Claim C8: when the project a written donation refers to does not exist, the write is
  rejected and the database stays as it was, by \<^verbatim>\<open>REFERENCES projects(id)\<close>; this holds for
  an \<^verbatim>\<open>UPDATE\<close> and for an \<^verbatim>\<open>INSERT\<close>. The trigger's own \<^verbatim>\<open>UPDATE projects\<close> changes no row when
  no \<^verbatim>\<open>id\<close> equals the donation's \<^verbatim>\<open>project_id\<close>, and in general leaves every row with
  another \<^verbatim>\<open>id\<close> untouched.
\<close>

theorem missing_project_rejects_write:
  "(d \<in> set (donations s) \<and> d_id d = did \<and> project_id (f d) \<notin> set (map p_id (projects s)) \<longrightarrow>
      (\<exists>e. run_statement (update_donation now did f) s = (s, Some e)))
   \<and> (project_id d \<notin> set (map p_id (projects s)) \<longrightarrow>
        (\<exists>e. run_statement (insert_donation d) s = (s, Some e)))
   \<and> (project_id NEW \<notin> set (map p_id ps) \<longrightarrow> update_projects now NEW ps = Inr ps)
   \<and> (update_projects now NEW ps = Inr ps' \<longrightarrow>
        list_all2 (\<lambda>p p'. p_id p' = p_id p \<and> (p_id p \<noteq> project_id NEW \<longrightarrow> p' = p)) ps ps')"
proof (intro conjI impI)
  assume h: "d \<in> set (donations s) \<and> d_id d = did
             \<and> project_id (f d) \<notin> set (map p_id (projects s))"
  then have "\<not> donations_fkey s (f d)"
    by (simp add: donations_fkey_def)
  with h have "\<exists>d \<in> set (filter (\<lambda>d. d_id d = did) (donations s)). \<not> donations_fkey s (f d)"
    by auto
  then have "\<exists>e. update_donation now did f s = Inl e"
    by (simp add: update_donation_def Let_def)
  then show "\<exists>e. run_statement (update_donation now did f) s = (s, Some e)"
    by (auto simp: run_statement_def)
next
  assume "project_id d \<notin> set (map p_id (projects s))"
  then have "\<not> donations_fkey s d"
    by (simp add: donations_fkey_def)
  then have "\<exists>e. insert_donation d s = Inl e"
    by (simp add: insert_donation_def Let_def)
  then show "\<exists>e. run_statement (insert_donation d) s = (s, Some e)"
    by (auto simp: run_statement_def)
next
  assume "project_id NEW \<notin> set (map p_id ps)"
  then show "update_projects now NEW ps = Inr ps"
    by (rule update_projects_no_match)
next
  assume "update_projects now NEW ps = Inr ps'"
  then have "ps' = map (\<lambda>p. if p_id p = project_id NEW then set_raised_and_status now NEW p else p) ps"
    by (rule update_projects_Inr)
  then show "list_all2 (\<lambda>p p'. p_id p' = p_id p \<and> (p_id p \<noteq> project_id NEW \<longrightarrow> p' = p)) ps ps'"
    by (auto simp: list_all2_map2 set_raised_and_status_def intro!: list_all2_refl)
qed

theorem missing_project_rejects_write_witness:
  "run_statement (update_donation 5 7 (\<lambda>d. d\<lparr>project_id := 3, d_status := Some ds_completed\<rparr>))
     (demo_db [demo_project 1 5000 2000 ps_active 0, demo_project 2 5000 0 ps_active 0]
              [demo_donation 7 1 4000 ds_pending])
   = (demo_db [demo_project 1 5000 2000 ps_active 0, demo_project 2 5000 0 ps_active 0]
              [demo_donation 7 1 4000 ds_pending], Some foreign_key_violation)
   \<and> update_projects 5 (demo_donation 7 3 4000 ds_completed)
        [demo_project 1 5000 2000 ps_active 0, demo_project 2 5000 0 ps_active 0]
      = Inr [demo_project 1 5000 2000 ps_active 0, demo_project 2 5000 0 ps_active 0]"
proof -
  have a: "run_statement (update_donation 5 7 (\<lambda>d. d\<lparr>project_id := 3, d_status := Some ds_completed\<rparr>))
     (demo_db [demo_project 1 5000 2000 ps_active 0, demo_project 2 5000 0 ps_active 0]
              [demo_donation 7 1 4000 ds_pending])
   = (demo_db [demo_project 1 5000 2000 ps_active 0, demo_project 2 5000 0 ps_active 0]
              [demo_donation 7 1 4000 ds_pending], Some foreign_key_violation)"
    by (simp add: demo_defs sql_defs stmt_defs)
  have "update_projects 5 (demo_donation 7 3 4000 ds_completed)
        [demo_project 1 5000 2000 ps_active 0, demo_project 2 5000 0 ps_active 0]
      = Inr [demo_project 1 5000 2000 ps_active 0, demo_project 2 5000 0 ps_active 0]"
    using missing_project_rejects_write
      [where NEW = "demo_donation 7 3 4000 ds_completed"
         and ps = "[demo_project 1 5000 2000 ps_active 0, demo_project 2 5000 0 ps_active 0]"
         and now = 5]
    by (simp add: demo_defs)
  with a show ?thesis by simp
qed

subsection \<open>What the trigger function changes\<close>

lemma primary_key_one_row:
  "distinct (map p_id ps) \<Longrightarrow> length (filter (\<lambda>p. p_id p = k) ps) \<le> 1"
proof (induction ps)
  case Nil
  then show ?case by simp
next
  case (Cons p ps)
  show ?case
  proof (cases "p_id p = k")
    case True
    with Cons.prems have "filter (\<lambda>p. p_id p = k) ps = []"
      by (force simp: filter_empty_conv image_iff)
    with True show ?thesis by simp
  next
    case False
    with Cons show ?thesis by simp
  qed
qed

lemma changed_rows_match:
  "length (filter (\<lambda>(p, p'). p' \<noteq> p) (zip ps (map (\<lambda>p. if p_id p = k then g p else p) ps)))
     \<le> length (filter (\<lambda>p. p_id p = k) ps)"
  by (induction ps) auto

lemma trigger_changes_one_row:
  assumes run: "update_project_raised_amount now OLD NEW s = Inr (s', N)"
    and pk: "distinct (map p_id (projects s))"
  shows "length (filter (\<lambda>(p, p'). p' \<noteq> p) (zip (projects s) (projects s'))) \<le> 1"
proof (cases "status_becomes_completed OLD NEW")
  case True
  with update_project_raised_amount_Inr(2)[OF run]
  have "projects s' = map (\<lambda>p. if p_id p = project_id NEW
                              then set_raised_and_status now NEW p else p) (projects s)"
    by simp
  then have "length (filter (\<lambda>(p, p'). p' \<noteq> p) (zip (projects s) (projects s')))
               \<le> length (filter (\<lambda>p. p_id p = project_id NEW) (projects s))"
    by (simp add: changed_rows_match)
  also have "\<dots> \<le> 1"
    using pk by (rule primary_key_one_row)
  finally show ?thesis .
next
  case False
  with update_project_raised_amount_Inr(2)[OF run]
  have "projects s' = projects s" by simp
  then show ?thesis by (simp add: zip_same_conv_map filter_map o_def)
qed

text \<open>
  Claim C9: a successful run of \<^verbatim>\<open>update_project_raised_amount\<close> returns \<^verbatim>\<open>NEW\<close> as it got
  it, leaves the \<^verbatim>\<open>donations\<close> and \<^verbatim>\<open>profiles\<close> tables alone, leaves every project whose
  \<^verbatim>\<open>id\<close> differs from the donation's \<^verbatim>\<open>project_id\<close> unchanged, and changes at most the
  columns \<^verbatim>\<open>raised_amount\<close>, \<^verbatim>\<open>status\<close> and \<^verbatim>\<open>updated_at\<close> of the others; with \<^verbatim>\<open>id\<close> a
  primary key, at most one row changes. After the whole \<^verbatim>\<open>UPDATE\<close> of a donation the
  \<^verbatim>\<open>donations\<close> table holds exactly what the statement's \<^verbatim>\<open>SET\<close> list wrote.
\<close>

theorem trigger_touches_only_target_project:
  "(update_project_raised_amount now OLD NEW s = Inr (s', N) \<longrightarrow>
      N = NEW \<and> donations s' = donations s \<and> profiles s' = profiles s
      \<and> list_all2 (\<lambda>p p'. (p_id p \<noteq> project_id NEW \<longrightarrow> p' = p)
                           \<and> p'\<lparr>raised_amount := raised_amount p, p_status := p_status p,
                                updated_at := updated_at p\<rparr> = p)
          (projects s) (projects s')
      \<and> (distinct (map p_id (projects s)) \<longrightarrow>
           length (filter (\<lambda>(p, p'). p' \<noteq> p) (zip (projects s) (projects s'))) \<le> 1))
   \<and> (update_donation now did f s = Inr s'' \<longrightarrow>
        donations s'' = map (\<lambda>d. if d_id d = did then f d else d) (donations s))"
proof (intro conjI impI)
  assume run: "update_project_raised_amount now OLD NEW s = Inr (s', N)"
  show "N = NEW"
    using update_project_raised_amount_Inr(1)[OF run] .
  have s': "s' = s\<lparr>projects :=
              (if status_becomes_completed OLD NEW
               then map (\<lambda>p. if p_id p = project_id NEW
                              then set_raised_and_status now NEW p else p)
                        (projects s)
               else projects s)\<rparr>"
    using update_project_raised_amount_Inr(2)[OF run] .
  show "donations s' = donations s" and "profiles s' = profiles s"
    by (simp_all add: s')
  have "set_raised_and_status now NEW p
          \<lparr>raised_amount := raised_amount p, p_status := p_status p, updated_at := updated_at p\<rparr> = p"
    for p by (simp add: set_raised_and_status_def)
  then show "list_all2 (\<lambda>p p'. (p_id p \<noteq> project_id NEW \<longrightarrow> p' = p)
                           \<and> p'\<lparr>raised_amount := raised_amount p, p_status := p_status p,
                                updated_at := updated_at p\<rparr> = p)
          (projects s) (projects s')"
    by (auto simp: s' list_all2_map2 intro!: list_all2_refl)
  show "length (filter (\<lambda>(p, p'). p' \<noteq> p) (zip (projects s) (projects s'))) \<le> 1"
    if pk: "distinct (map p_id (projects s))"
    using trigger_changes_one_row[OF run pk] .
next
  assume run: "update_donation now did f s = Inr s''"
  show "donations s'' = map (\<lambda>d. if d_id d = did then f d else d) (donations s)"
    using on_donation_completed_frame[OF update_donation_Inr(1)[OF run]] by simp
qed

theorem trigger_touches_only_target_project_witness:
  "update_project_raised_amount 5
     (demo_donation 7 1 4000 ds_pending) (demo_donation 7 1 4000 ds_completed)
     (demo_db [demo_project 1 5000 2000 ps_active 0, demo_project 2 5000 0 ps_draft 0]
              [demo_donation 7 1 4000 ds_completed])
   = Inr (demo_db [demo_project 1 5000 6000 ps_fully_funded 5, demo_project 2 5000 0 ps_draft 0]
                  [demo_donation 7 1 4000 ds_completed],
          demo_donation 7 1 4000 ds_completed)
   \<and> list_all2 (\<lambda>p p'. p'\<lparr>raised_amount := raised_amount p, p_status := p_status p,
                           updated_at := updated_at p\<rparr> = p)
       [demo_project 1 5000 2000 ps_active 0, demo_project 2 5000 0 ps_draft 0]
       [demo_project 1 5000 6000 ps_fully_funded 5, demo_project 2 5000 0 ps_draft 0]"
proof -
  have run: "update_project_raised_amount 5
     (demo_donation 7 1 4000 ds_pending) (demo_donation 7 1 4000 ds_completed)
     (demo_db [demo_project 1 5000 2000 ps_active 0, demo_project 2 5000 0 ps_draft 0]
              [demo_donation 7 1 4000 ds_completed])
   = Inr (demo_db [demo_project 1 5000 6000 ps_fully_funded 5, demo_project 2 5000 0 ps_draft 0]
                  [demo_donation 7 1 4000 ds_completed],
          demo_donation 7 1 4000 ds_completed)"
    by (simp add: demo_defs sql_defs stmt_defs)
  show ?thesis
    using run trigger_touches_only_target_project
      [where now = 5 and OLD = "demo_donation 7 1 4000 ds_pending"
         and NEW = "demo_donation 7 1 4000 ds_completed"
         and s = "demo_db [demo_project 1 5000 2000 ps_active 0, demo_project 2 5000 0 ps_draft 0]
                    [demo_donation 7 1 4000 ds_completed]"
         and s' = "demo_db [demo_project 1 5000 6000 ps_fully_funded 5, demo_project 2 5000 0 ps_draft 0]
                  [demo_donation 7 1 4000 ds_completed]"
         and N = "demo_donation 7 1 4000 ds_completed"]
    by (simp add: demo_db_def)
qed

subsection \<open>The only status the trigger writes is fully funded\<close>

text \<open>
  Claim C10: after any \<^verbatim>\<open>UPDATE\<close> of a donation, every project's status is what it was
  before or \<^verbatim>\<open>fully_funded\<close>; a project that was \<^verbatim>\<open>fully_funded\<close> still is.
\<close>

theorem status_only_ever_becomes_fully_funded:
  "list_all2 (\<lambda>p p'. (p_status p' = p_status p \<or> p_status p' = Some ps_fully_funded)
                      \<and> (p_status p = Some ps_fully_funded \<longrightarrow> p_status p' = Some ps_fully_funded))
     (projects s) (projects (fst (run_statement (update_donation now did f) s)))"
  by (rule update_donation_rel) (auto simp: set_raised_and_status_def)

theorem status_only_ever_becomes_fully_funded_witness:
  "list_all2 (\<lambda>p p'. p_status p' = Some ps_fully_funded)
     [demo_project 1 5000 2000 ps_cancelled 0]
     (projects (fst (run_statement (update_donation 5 7 (set_status (Some ds_completed)))
        (demo_db [demo_project 1 5000 2000 ps_cancelled 0] [demo_donation 7 1 4000 ds_pending]))))
   \<and> list_all2 (\<lambda>p p'. p_status p' = p_status p)
     [demo_project 1 5000 2000 ps_cancelled 0]
     (projects (fst (run_statement (update_donation 5 7 (set_status (Some ds_refunded)))
        (demo_db [demo_project 1 5000 2000 ps_cancelled 0] [demo_donation 7 1 4000 ds_pending]))))"
  using status_only_ever_becomes_fully_funded
    [of "demo_db [demo_project 1 5000 2000 ps_cancelled 0] [demo_donation 7 1 4000 ds_pending]"
        5 7 "set_status (Some ds_completed)"]
  by (simp add: demo_defs sql_defs stmt_defs)

end
